theory Spec2Isabelle
  imports Complex_Main "HOL-Library.Word"
begin

unbundle bit_operations_syntax

section \<open>JavaScript strings\<close>

text \<open>
  A JavaScript string is a sequence of UTF-16 code units.  \<open>js\<close> embeds an ASCII literal.
  \<open>trim\<close> is \<open>String.prototype.trim\<close>: it strips the ECMAScript WhiteSpace and
  LineTerminator code points (all of them single code units) from both ends.
\<close>

type_synonym code_unit = "16 word"
type_synonym js_string = "code_unit list"

definition js :: "string \<Rightarrow> js_string" where
  "js s = map (\<lambda>c. of_nat (of_char c)) s"

definition isWhiteSpace :: "code_unit \<Rightarrow> bool" where
  "isWhiteSpace c =
     (c = 0x0009 \<or> c = 0x000A \<or> c = 0x000B \<or> c = 0x000C \<or> c = 0x000D \<or> c = 0x0020
      \<or> c = 0x00A0 \<or> c = 0x1680 \<or> (0x2000 \<le> c \<and> c \<le> 0x200A)
      \<or> c = 0x2028 \<or> c = 0x2029 \<or> c = 0x202F \<or> c = 0x205F \<or> c = 0x3000 \<or> c = 0xFEFF)"

definition trim :: "js_string \<Rightarrow> js_string" where
  "trim s = rev (dropWhile isWhiteSpace (rev (dropWhile isWhiteSpace s)))"

text \<open>\<open>prev + text\<close> where \<open>text\<close> may be \<open>undefined\<close>: string concatenation converts
  the right operand with ToString, and ToString(undefined) is the string "undefined".\<close>

definition toString :: "js_string option \<Rightarrow> js_string" where
  "toString v = (case v of None \<Rightarrow> js ''undefined'' | Some s \<Rightarrow> s)"

definition js_plus :: "js_string \<Rightarrow> js_string option \<Rightarrow> js_string" where
  "js_plus prev v = prev @ toString v"

section \<open>Server messages\<close>

text \<open>
  \<open>LiveServerMessage\<close> as \<open>onmessage\<close> reads it.  Every field is optional in the
  library's type; \<open>None\<close> is an absent (\<open>undefined\<close>) field.
\<close>

record transcription =
  tr_text :: "js_string option"

record server_content =
  inputTranscription :: "transcription option"
  turnComplete :: "bool option"

record live_server_message =
  serverContent :: "server_content option"

section \<open>External objects and component state\<close>

record media_stream =
  tracks :: "nat list"

datatype context_state = Suspended | Running | Closed

record audio_context =
  ctx_state :: context_state
  ctx_close_rejects :: bool

record session =
  session_id :: nat
  close_throws :: bool

text \<open>
  The promise returned by \<open>ai.live.connect\<close>.  It is either settled already or still
  pending; a pending promise later fulfils, rejects, or never settles.
\<close>

datatype settlement = Fulfils session | Rejects | NeverSettles

datatype session_promise = Fulfilled session | Rejected | Pending settlement

datatype 'a awaited = Value 'a | Throws | Forever

fun await :: "session_promise \<Rightarrow> session awaited" where
  "await (Fulfilled s) = Value s"
| "await Rejected = Throws"
| "await (Pending (Fulfils s)) = Value s"
| "await (Pending Rejects) = Throws"
| "await (Pending NeverSettles) = Forever"

text \<open>
  Calls on external objects, recorded in the order the component makes them.  A track's
  \<open>stop\<close> and a node's \<open>disconnect\<close> return normally; a session's \<open>close\<close> may
  throw, and the promise of a context's \<open>close\<close> resolves or rejects.
\<close>

datatype effect =
    GetUserMedia
  | NewGoogleGenAI
  | NewAudioContext
  | LiveConnect
  | CreateMediaStreamSource
  | CreateScriptProcessor
  | SourceConnect
  | ProcessorConnect
  | AwaitSession
  | SessionClose nat
  | TrackStop nat
  | ProcessorDisconnect
  | ContextClose
  | ConsoleError

text \<open>
  The React state cells and refs of \<open>App\<close> that the capture pipeline uses, with the log
  of external calls.
\<close>

record app =
  isCapturing :: bool
  transcripts :: "js_string list"
  currentTranscript :: js_string
  error :: "js_string option"
  sessionPromiseRef :: "session_promise option"
  audioContextRef :: "audio_context option"
  streamRef :: "media_stream option"
  scriptProcessorRef :: "unit option"
  effects :: "effect list"

definition initial_app :: app where
  "initial_app =
     \<lparr>isCapturing = False, transcripts = [], currentTranscript = [], error = None,
      sessionPromiseRef = None, audioContextRef = None, streamRef = None,
      scriptProcessorRef = None, effects = []\<rparr>"

definition perform :: "effect list \<Rightarrow> app \<Rightarrow> app" where
  "perform es a = a\<lparr>effects := effects a @ es\<rparr>"

section \<open>Transcript assembler: \<open>onmessage\<close>\<close>

text \<open>
  The two state updaters of \<open>onmessage\<close>, applied in the order they are queued.  The
  second one calls \<open>setTranscripts\<close> from inside the \<open>setCurrentTranscript\<close> updater.
\<close>

definition appendDelta :: "js_string option \<Rightarrow> app \<Rightarrow> app" where
  "appendDelta t a = a\<lparr>currentTranscript := js_plus (currentTranscript a) t\<rparr>"

definition finishTurn :: "app \<Rightarrow> app" where
  "finishTurn a =
     (let prevCurrent = currentTranscript a;
          a' = (if trim prevCurrent \<noteq> []
                then a\<lparr>transcripts := transcripts a @ [trim prevCurrent]\<rparr>
                else a)
      in a'\<lparr>currentTranscript := []\<rparr>)"

definition onmessage :: "live_server_message \<Rightarrow> app \<Rightarrow> app" where
  "onmessage message a =
     (let a1 = (case serverContent message of
                  None \<Rightarrow> a
                | Some sc \<Rightarrow> (case inputTranscription sc of
                      None \<Rightarrow> a
                    | Some tr \<Rightarrow> appendDelta (tr_text tr) a));
          a2 = (case serverContent message of
                  None \<Rightarrow> a1
                | Some sc \<Rightarrow> (if turnComplete sc = Some True then finishTurn a1 else a1))
      in a2)"

text \<open>Messages arrive one at a time; the assembler folds them into the state.\<close>

fun assemble :: "live_server_message list \<Rightarrow> app \<Rightarrow> app" where
  "assemble [] a = a"
| "assemble (m # ms) a = assemble ms (onmessage m a)"

text \<open>The message shapes of the service: a text delta, and a turn boundary.\<close>

definition transcriptDelta :: "js_string \<Rightarrow> live_server_message" where
  "transcriptDelta t =
     \<lparr>serverContent = Some \<lparr>inputTranscription = Some \<lparr>tr_text = Some t\<rparr>,
                              turnComplete = None\<rparr>\<rparr>"

definition turnCompleteMsg :: live_server_message where
  "turnCompleteMsg = \<lparr>serverContent = Some \<lparr>inputTranscription = None, turnComplete = Some True\<rparr>\<rparr>"

section \<open>PCM encoder: \<open>createBlob\<close> and \<open>encode\<close>\<close>

text \<open>
  An element read from a \<open>Float32Array\<close> is a binary32 value, a finite one being a dyadic
  rational with at most 24 significant bits.  Its product with \<open>32768\<close> or \<open>32767\<close>
  has at most 39 significant bits and stays far inside the exponent range of binary64, so
  the multiplication is exact and is the product of real numbers.  A number is therefore
  a real or one of the three non-finite values.
\<close>

datatype number = Finite real | NaN | PosInfinity | NegInfinity

fun lessThanZero :: "number \<Rightarrow> bool" where
  "lessThanZero (Finite r) = (r < 0)"
| "lessThanZero NaN = False"
| "lessThanZero PosInfinity = False"
| "lessThanZero NegInfinity = True"

text \<open>Multiplication by a positive finite literal.\<close>

fun times :: "number \<Rightarrow> real \<Rightarrow> number" where
  "times (Finite r) c = Finite (r * c)"
| "times NaN c = NaN"
| "times PosInfinity c = PosInfinity"
| "times NegInfinity c = NegInfinity"

definition truncateToInt :: "real \<Rightarrow> int" where
  "truncateToInt r = (if r < 0 then \<lceil>r\<rceil> else \<lfloor>r\<rfloor>)"

text \<open>
  Storing into an \<open>Int16Array\<close> applies ToInt16: a non-finite number becomes 0, a finite
  one is truncated towards zero and reduced modulo \<open>2 ^ 16\<close> into the signed range.
\<close>

fun toInt16 :: "number \<Rightarrow> 16 word" where
  "toInt16 (Finite r) = word_of_int (truncateToInt r)"
| "toInt16 NaN = 0"
| "toInt16 PosInfinity = 0"
| "toInt16 NegInfinity = 0"

text \<open>The right-hand side of the assignment in the loop of \<open>createBlob\<close>.\<close>

definition scaleSample :: "number \<Rightarrow> 16 word" where
  "scaleSample x = toInt16 (if lessThanZero x then times x 32768 else times x 32767)"

function fillInt16 :: "number list \<Rightarrow> nat \<Rightarrow> 16 word list \<Rightarrow> 16 word list" where
  "fillInt16 samples i int16 =
     (if i < length samples
      then fillInt16 samples (Suc i) (int16[i := scaleSample (samples ! i)])
      else int16)"
  by pat_completeness auto
termination
  by (relation "measure (\<lambda>(samples, i, int16). length samples - i)") auto

declare fillInt16.simps [simp del]

text \<open>
  \<open>new Uint8Array(int16.buffer)\<close> views the samples' storage as bytes, in the byte order
  of the platform.
\<close>

datatype byte_order = LittleEndian | BigEndian

fun int16Bytes :: "byte_order \<Rightarrow> 16 word \<Rightarrow> 8 word list" where
  "int16Bytes LittleEndian w = [ucast w, ucast (drop_bit 8 w)]"
| "int16Bytes BigEndian w = [ucast (drop_bit 8 w), ucast w]"

definition bufferBytes :: "byte_order \<Rightarrow> 16 word list \<Rightarrow> 8 word list" where
  "bufferBytes bo int16 = concat (map (int16Bytes bo) int16)"

text \<open>
  \<open>btoa\<close> is the platform's: it throws InvalidCharacterError when a code unit exceeds
  \<open>0xFF\<close> and otherwise returns the base64 text (RFC 4648, with padding) of the code
  units read as bytes.
\<close>

definition base64Alphabet :: js_string where
  "base64Alphabet = js ''ABCDEFGHIJKLMNOPQRSTUVWXYZabcdefghijklmnopqrstuvwxyz0123456789+/''"

definition sextet :: "nat \<Rightarrow> code_unit" where
  "sextet n = base64Alphabet ! (n mod 64)"

fun base64 :: "8 word list \<Rightarrow> js_string" where
  "base64 (a # b # c # rest) =
     (let n = unat a * 65536 + unat b * 256 + unat c
      in [sextet (n div 262144), sextet (n div 4096), sextet (n div 64), sextet n]
         @ base64 rest)"
| "base64 [a, b] =
     (let n = unat a * 65536 + unat b * 256
      in [sextet (n div 262144), sextet (n div 4096), sextet (n div 64), 0x3D])"
| "base64 [a] =
     (let n = unat a * 65536
      in [sextet (n div 262144), sextet (n div 4096), 0x3D, 0x3D])"
| "base64 [] = []"

datatype dom_exception = InvalidCharacterError

definition btoa :: "js_string \<Rightarrow> dom_exception + js_string" where
  "btoa binary =
     (if list_all (\<lambda>c. c \<le> 0xFF) binary then Inr (base64 (map ucast binary))
      else Inl InvalidCharacterError)"

definition fromCharCode :: "8 word \<Rightarrow> code_unit" where
  "fromCharCode b = ucast b"

function encodeLoop :: "8 word list \<Rightarrow> nat \<Rightarrow> js_string \<Rightarrow> js_string" where
  "encodeLoop bytes i binary =
     (if i < length bytes
      then encodeLoop bytes (Suc i) (binary @ [fromCharCode (bytes ! i)])
      else binary)"
  by pat_completeness auto
termination
  by (relation "measure (\<lambda>(bytes, i, binary). length bytes - i)") auto

declare encodeLoop.simps [simp del]

definition encode :: "8 word list \<Rightarrow> dom_exception + js_string" where
  "encode bytes = btoa (encodeLoop bytes 0 [])"

record blob =
  blob_data :: js_string
  mimeType :: js_string

definition createBlob :: "byte_order \<Rightarrow> number list \<Rightarrow> dom_exception + blob" where
  "createBlob bo samples =
     (let l = length samples;
          int16 = fillInt16 samples 0 (replicate l 0)
      in case encode (bufferBytes bo int16) of
           Inl e \<Rightarrow> Inl e
         | Inr text \<Rightarrow> Inr \<lparr>blob_data = text, mimeType = js ''audio/pcm;rate=16000''\<rparr>)"

section \<open>Audio capture manager: \<open>startCapture\<close>, \<open>onopen\<close>, \<open>stopCapture\<close>\<close>

text \<open>
  An async function completes, throws (its promise rejects), or never returns because an
  awaited promise never settles; the state it leaves behind is returned in each case.
\<close>

datatype completion = Completed | ThrewError | NeverReturns

text \<open>
  What the platform and the service library do during one call of \<open>startCapture\<close>:
  the outcome of awaiting \<open>getUserMedia\<close>, whether the \<open>GoogleGenAI\<close> constructor
  throws, the context the \<open>AudioContext\<close> constructor returns (\<open>None\<close>: it throws) and
  the promise \<open>ai.live.connect\<close> returns (\<open>None\<close>: it throws).
\<close>

record environment =
  getUserMedia :: "media_stream awaited"
  newGoogleGenAI_throws :: bool
  newAudioContext :: "audio_context option"
  liveConnect :: "session_promise option"

definition micErrorMessage :: js_string where
  "micErrorMessage = js ''Could not access microphone. Please grant permission and try again.''"

text \<open>The \<open>catch\<close> block of \<open>startCapture\<close>.\<close>

definition catchStartError :: "app \<Rightarrow> app" where
  "catchStartError a = (perform [ConsoleError] a)\<lparr>error := Some micErrorMessage, isCapturing := False\<rparr>"

definition startCapture :: "environment \<Rightarrow> app \<Rightarrow> completion \<times> app" where
  "startCapture env a =
     (let a1 = a\<lparr>transcripts := [], currentTranscript := [], error := None, isCapturing := True\<rparr>
      in case getUserMedia env of
           Forever \<Rightarrow> (NeverReturns, perform [GetUserMedia] a1)
         | Throws \<Rightarrow> (Completed, catchStartError (perform [GetUserMedia] a1))
         | Value stream \<Rightarrow>
             (let a2 = (perform [GetUserMedia] a1)\<lparr>streamRef := Some stream\<rparr>
              in if newGoogleGenAI_throws env
                 then (Completed, catchStartError (perform [NewGoogleGenAI] a2))
                 else (case newAudioContext env of
                         None \<Rightarrow>
                           (Completed,
                            catchStartError (perform [NewGoogleGenAI, NewAudioContext] a2))
                       | Some ctx \<Rightarrow>
                           (let a3 = (perform [NewGoogleGenAI, NewAudioContext] a2)
                                       \<lparr>audioContextRef := Some ctx\<rparr>
                            in case liveConnect env of
                                 None \<Rightarrow> (Completed, catchStartError (perform [LiveConnect] a3))
                               | Some p \<Rightarrow>
                                   (Completed,
                                    (perform [LiveConnect] a3)\<lparr>sessionPromiseRef := Some p\<rparr>)))))"

text \<open>The \<open>onopen\<close> callback wires the audio graph once the session is open.\<close>

definition onopen :: "app \<Rightarrow> app" where
  "onopen a =
     (if audioContextRef a = None \<or> streamRef a = None then a
      else (perform [CreateMediaStreamSource, CreateScriptProcessor, SourceConnect,
                     ProcessorConnect] a)\<lparr>scriptProcessorRef := Some ()\<rparr>)"

text \<open>The four blocks of \<open>stopCapture\<close>, in the order of the source.\<close>

definition closeSession :: "app \<Rightarrow> completion \<times> app" where
  "closeSession a =
     (case sessionPromiseRef a of
        None \<Rightarrow> (Completed, a)
      | Some p \<Rightarrow>
          (case await p of
             Forever \<Rightarrow> (NeverReturns, perform [AwaitSession] a)
           | Throws \<Rightarrow>
               (Completed,
                (perform [AwaitSession, ConsoleError] a)\<lparr>sessionPromiseRef := None\<rparr>)
           | Value s \<Rightarrow>
               (Completed,
                (perform ([AwaitSession, SessionClose (session_id s)]
                          @ (if close_throws s then [ConsoleError] else [])) a)
                  \<lparr>sessionPromiseRef := None\<rparr>)))"

definition stopTracks :: "app \<Rightarrow> app" where
  "stopTracks a =
     (case streamRef a of
        None \<Rightarrow> a
      | Some stream \<Rightarrow> (perform (map TrackStop (tracks stream)) a)\<lparr>streamRef := None\<rparr>)"

definition disconnectProcessor :: "app \<Rightarrow> app" where
  "disconnectProcessor a =
     (case scriptProcessorRef a of
        None \<Rightarrow> a
      | Some u \<Rightarrow> (perform [ProcessorDisconnect] a)\<lparr>scriptProcessorRef := None\<rparr>)"

definition closeContext :: "app \<Rightarrow> completion \<times> app" where
  "closeContext a =
     (case audioContextRef a of
        None \<Rightarrow> (Completed, a)
      | Some ctx \<Rightarrow>
          (if ctx_state ctx \<noteq> Closed
           then (if ctx_close_rejects ctx then (ThrewError, perform [ContextClose] a)
                 else (Completed, (perform [ContextClose] a)\<lparr>audioContextRef := None\<rparr>))
           else (Completed, a)))"

definition stopCapture :: "app \<Rightarrow> completion \<times> app" where
  "stopCapture a =
     (case closeSession (a\<lparr>isCapturing := False\<rparr>) of
        (Completed, a1) \<Rightarrow> closeContext (disconnectProcessor (stopTracks a1))
      | (c, a1) \<Rightarrow> (c, a1))"

text \<open>The effects a call adds to the log.\<close>

definition newEffects :: "app \<Rightarrow> app \<Rightarrow> effect list" where
  "newEffects before after = drop (length (effects before)) (effects after)"

text \<open>\<open>precedes x y es\<close>: some occurrence of \<open>x\<close> in \<open>es\<close> comes before an occurrence of \<open>y\<close>.\<close>

fun precedes :: "effect \<Rightarrow> effect \<Rightarrow> effect list \<Rightarrow> bool" where
  "precedes x y [] = False"
| "precedes x y (e # es) = ((e = x \<and> y \<in> set es) \<or> precedes x y es)"

text \<open>The effects each teardown block of \<open>stopCapture\<close> adds, read off the refs.\<close>

definition trackEffects :: "app \<Rightarrow> effect list" where
  "trackEffects a = (case streamRef a of None \<Rightarrow> [] | Some stream \<Rightarrow> map TrackStop (tracks stream))"

definition processorEffects :: "app \<Rightarrow> effect list" where
  "processorEffects a = (case scriptProcessorRef a of None \<Rightarrow> [] | Some u \<Rightarrow> [ProcessorDisconnect])"

definition contextEffects :: "app \<Rightarrow> effect list" where
  "contextEffects a =
     (case audioContextRef a of
        None \<Rightarrow> []
      | Some ctx \<Rightarrow> if ctx_state ctx \<noteq> Closed then [ContextClose] else [])"

definition isSessionClose :: "effect \<Rightarrow> bool" where
  "isSessionClose e = (case e of SessionClose n \<Rightarrow> True | _ \<Rightarrow> False)"

text \<open>Nothing is held: every ref is empty, or holds a context that is closed already.\<close>

definition released :: "app \<Rightarrow> bool" where
  "released a =
     (\<not> isCapturing a \<and> sessionPromiseRef a = None \<and> streamRef a = None
      \<and> scriptProcessorRef a = None
      \<and> (case audioContextRef a of None \<Rightarrow> True | Some ctx \<Rightarrow> ctx_state ctx = Closed))"

text \<open>
  Concrete runs.  \<open>grantedEnv\<close>: the microphone is granted, both constructors succeed
  and the session promise is still pending when \<open>startCapture\<close> returns.
  \<open>startedApp\<close> is the state after that start and the \<open>onopen\<close> callback.  In
  \<open>keylessEnv\<close> the \<open>GoogleGenAI\<close> constructor throws after the microphone was
  granted.  \<open>secondEnv\<close> is a second start: another stream, context and pending session.
\<close>

definition grantedEnv :: environment where
  "grantedEnv =
     \<lparr>getUserMedia = Value \<lparr>tracks = [0]\<rparr>, newGoogleGenAI_throws = False,
      newAudioContext = Some \<lparr>ctx_state = Running, ctx_close_rejects = False\<rparr>,
      liveConnect = Some (Pending (Fulfils \<lparr>session_id = 1, close_throws = False\<rparr>))\<rparr>"

definition startedApp :: app where
  "startedApp = onopen (snd (startCapture grantedEnv initial_app))"

definition keylessEnv :: environment where
  "keylessEnv = grantedEnv\<lparr>newGoogleGenAI_throws := True\<rparr>"

text \<open>
  \<open>stopCapture\<close> as it runs.  An async function runs to its first \<open>await\<close> and is
  suspended there; it resumes when the awaited promise has settled, and other callbacks can
  run in between.  \<open>stopCapture\<close> awaits twice: the session promise (line 139) and the
  promise of the context's \<open>close\<close> (line 158).  \<open>stopCapture_begin\<close> is the call up to
  its first suspension, \<open>stopCapture_resume\<close> one resumption, and
  \<open>stopCapture_teardown\<close> the stretch from the stream block to the second \<open>await\<close>.
  The session ref is tested before the first \<open>await\<close> and cleared after it.  While the
  close of a context is pending, the ref still holds the context and its state still reads
  as not closed.
\<close>

datatype stop_task =
    AwaitingSession session_promise
  | AwaitingContextClose audio_context
  | Returned completion

definition stopCapture_teardown :: "app \<Rightarrow> stop_task \<times> app" where
  "stopCapture_teardown a =
     (let a1 = disconnectProcessor (stopTracks a)
      in case audioContextRef a1 of
           None \<Rightarrow> (Returned Completed, a1)
         | Some ctx \<Rightarrow>
             (if ctx_state ctx \<noteq> Closed
              then (AwaitingContextClose ctx, perform [ContextClose] a1)
              else (Returned Completed, a1)))"

definition stopCapture_begin :: "app \<Rightarrow> stop_task \<times> app" where
  "stopCapture_begin a =
     (let a0 = a\<lparr>isCapturing := False\<rparr>
      in case sessionPromiseRef a0 of
           None \<Rightarrow> stopCapture_teardown a0
         | Some p \<Rightarrow> (AwaitingSession p, perform [AwaitSession] a0))"

definition stopCapture_resume :: "stop_task \<Rightarrow> app \<Rightarrow> stop_task \<times> app" where
  "stopCapture_resume t a =
     (case t of
        AwaitingSession p \<Rightarrow>
          (case await p of
             Forever \<Rightarrow> (t, a)
           | Throws \<Rightarrow>
               stopCapture_teardown ((perform [ConsoleError] a)\<lparr>sessionPromiseRef := None\<rparr>)
           | Value s \<Rightarrow>
               stopCapture_teardown
                 ((perform (SessionClose (session_id s)
                            # (if close_throws s then [ConsoleError] else [])) a)
                    \<lparr>sessionPromiseRef := None\<rparr>))
      | AwaitingContextClose ctx \<Rightarrow>
          (if ctx_close_rejects ctx then (Returned ThrewError, a)
           else (Returned Completed, a\<lparr>audioContextRef := None\<rparr>))
      | Returned c \<Rightarrow> (t, a))"

fun completionOf :: "stop_task \<Rightarrow> completion" where
  "completionOf (Returned c) = c"
| "completionOf (AwaitingSession p) = NeverReturns"
| "completionOf (AwaitingContextClose ctx) = NeverReturns"

definition stopCapture_alone :: "app \<Rightarrow> completion \<times> app" where
  "stopCapture_alone a =
     (case stopCapture_begin a of (t1, a1) \<Rightarrow>
      case stopCapture_resume t1 a1 of (t2, a2) \<Rightarrow>
      case stopCapture_resume t2 a2 of (t3, a3) \<Rightarrow> (completionOf t3, a3))"

text \<open>
  Two schedules.  \<open>twoStopsOverlapped\<close>: a second \<open>stopCapture\<close> is called while the
  first is suspended on the session promise; when the promise settles the two continuations
  run in the order of the calls.  \<open>restartDuringStop\<close>: a start, a \<open>stopCapture\<close> that is
  suspended on the pending session promise, a second start while it is suspended, the
  \<open>onopen\<close> callback of the first session, and then the suspended stop resumed to its end.
\<close>

definition twoStopsOverlapped :: "app \<Rightarrow> app" where
  "twoStopsOverlapped a =
     (case stopCapture_begin a of (t1, a1) \<Rightarrow>
      case stopCapture_begin a1 of (t2, a2) \<Rightarrow>
      case stopCapture_resume t1 a2 of (t1', a3) \<Rightarrow>
      case stopCapture_resume t2 a3 of (t2', a4) \<Rightarrow> a4)"

definition secondEnv :: environment where
  "secondEnv =
     \<lparr>getUserMedia = Value \<lparr>tracks = [1]\<rparr>, newGoogleGenAI_throws = False,
      newAudioContext = Some \<lparr>ctx_state = Running, ctx_close_rejects = False\<rparr>,
      liveConnect = Some (Pending (Fulfils \<lparr>session_id = 2, close_throws = False\<rparr>))\<rparr>"

definition restartDuringStop :: app where
  "restartDuringStop =
     (case stopCapture_begin (snd (startCapture grantedEnv initial_app)) of (t1, a1) \<Rightarrow>
      case stopCapture_resume t1 (onopen (snd (startCapture secondEnv a1))) of (t2, a2) \<Rightarrow>
      snd (stopCapture_resume t2 a2))"


section \<open>Properties of the transcript assembler\<close>

lemma assemble_snoc: "assemble (ms @ [m]) a = onmessage m (assemble ms a)"
  by (induction ms arbitrary: a) simp_all

lemma onmessage_transcriptDelta:
  "onmessage (transcriptDelta t) a = a\<lparr>currentTranscript := currentTranscript a @ t\<rparr>"
  by (simp add: onmessage_def transcriptDelta_def appendDelta_def js_plus_def toString_def)

lemma onmessage_turnCompleteMsg: "onmessage turnCompleteMsg a = finishTurn a"
  by (simp add: onmessage_def turnCompleteMsg_def)

lemma trim_blank: "list_all isWhiteSpace s \<Longrightarrow> trim s = []"
proof -
  assume "list_all isWhiteSpace s"
  then have d: "dropWhile isWhiteSpace s = []"
    by (induction s) simp_all
  show ?thesis
    by (simp only: trim_def d rev.simps dropWhile.simps)
qed

lemma trim_Nil_iff: "trim s = [] \<longleftrightarrow> list_all isWhiteSpace s"
proof
  assume t: "trim s = []"
  show "list_all isWhiteSpace s"
  proof (cases "dropWhile isWhiteSpace s")
    case Nil
    then show ?thesis by (simp add: list_all_iff)
  next
    case (Cons x xs)
    then have "\<not> isWhiteSpace x"
      using hd_dropWhile [of isWhiteSpace s] by simp
    moreover from t Cons have "isWhiteSpace x"
      by (simp add: trim_def)
    ultimately show ?thesis by simp
  qed
qed (rule trim_blank)

text \<open>
  Claim C1.  Wherever it stands in a sequence of server messages, a text delta appends its
  text unchanged to the current line, and a turn boundary trims the current line, appends
  the trimmed text at the end of the finalized lines when it is not empty, and empties the
  current line.  From empty transcript state the deltas "He" and "llo" followed by a turn
  boundary leave the finalized lines ["Hello"] and an empty current line.
\<close>

theorem assembler_delta_and_turn_boundary:
  "assemble (ms @ [transcriptDelta t]) a =
     (assemble ms a)\<lparr>currentTranscript := currentTranscript (assemble ms a) @ t\<rparr>
   \<and> assemble (ms @ [turnCompleteMsg]) a =
     (assemble ms a)\<lparr>transcripts :=
         (if trim (currentTranscript (assemble ms a)) = [] then transcripts (assemble ms a)
          else transcripts (assemble ms a) @ [trim (currentTranscript (assemble ms a))]),
        currentTranscript := []\<rparr>
   \<and> assemble [transcriptDelta (js ''He''), transcriptDelta (js ''llo''), turnCompleteMsg]
        (a\<lparr>transcripts := [], currentTranscript := []\<rparr>)
      = a\<lparr>transcripts := [js ''Hello''], currentTranscript := []\<rparr>"
proof (intro conjI)
  show "assemble (ms @ [transcriptDelta t]) a =
     (assemble ms a)\<lparr>currentTranscript := currentTranscript (assemble ms a) @ t\<rparr>"
    by (simp only: assemble_snoc onmessage_transcriptDelta)
  show "assemble (ms @ [turnCompleteMsg]) a =
     (assemble ms a)\<lparr>transcripts :=
         (if trim (currentTranscript (assemble ms a)) = [] then transcripts (assemble ms a)
          else transcripts (assemble ms a) @ [trim (currentTranscript (assemble ms a))]),
        currentTranscript := []\<rparr>"
    by (simp add: assemble_snoc onmessage_turnCompleteMsg finishTurn_def Let_def)
  have "trim (js ''Hello'') = js ''Hello''"
    by (simp add: js_def trim_def isWhiteSpace_def)
  moreover have "js ''He'' @ js ''llo'' = js ''Hello''"
    by (simp add: js_def)
  moreover have "js ''Hello'' \<noteq> []"
    by (simp add: js_def)
  ultimately show
    "assemble [transcriptDelta (js ''He''), transcriptDelta (js ''llo''), turnCompleteMsg]
        (a\<lparr>transcripts := [], currentTranscript := []\<rparr>)
      = a\<lparr>transcripts := [js ''Hello''], currentTranscript := []\<rparr>"
    by (simp add: onmessage_transcriptDelta onmessage_turnCompleteMsg finishTurn_def Let_def)
qed

text \<open>
  Claim C3.  A turn boundary that finds the current line empty or made of whitespace only
  adds no finalized line: it leaves the finalized lines as they are and only empties the
  current line.  Hence after one turn boundary, further turn boundaries with no delta in
  between change nothing.
\<close>

theorem turn_boundary_on_blank_line:
  "(list_all isWhiteSpace (currentTranscript a) \<longrightarrow>
      onmessage turnCompleteMsg a = a\<lparr>currentTranscript := []\<rparr>
      \<and> transcripts (onmessage turnCompleteMsg a) = transcripts a)
   \<and> onmessage turnCompleteMsg (onmessage turnCompleteMsg a) = onmessage turnCompleteMsg a
   \<and> assemble [turnCompleteMsg, turnCompleteMsg] (onmessage turnCompleteMsg a)
        = onmessage turnCompleteMsg a"
  by (simp add: onmessage_turnCompleteMsg finishTurn_def Let_def trim_blank)

theorem turn_boundary_on_blank_line_witness:
  "list_all isWhiteSpace
     (currentTranscript (initial_app\<lparr>transcripts := [js ''Hello''], currentTranscript := js ''  ''\<rparr>))
   \<and> onmessage turnCompleteMsg
        (initial_app\<lparr>transcripts := [js ''Hello''], currentTranscript := js ''  ''\<rparr>)
       = initial_app\<lparr>transcripts := [js ''Hello'']\<rparr>
   \<and> transcripts (onmessage turnCompleteMsg
        (initial_app\<lparr>transcripts := [js ''Hello''], currentTranscript := js ''  ''\<rparr>))
       = [js ''Hello'']"
  using turn_boundary_on_blank_line
          [of "initial_app\<lparr>transcripts := [js ''Hello''], currentTranscript := js ''  ''\<rparr>"]
  by (simp add: js_def isWhiteSpace_def initial_app_def)

text \<open>
  Claim C4.  A message whose optional fields are absent never makes \<open>onmessage\<close> fail, and
  one without \<open>serverContent\<close>, or with neither \<open>inputTranscription\<close> nor
  \<open>turnComplete\<close>, leaves the state as it is.  A transcription whose text is absent is
  not treated as an empty delta: the current line "Hi" becomes "Hiundefined".
\<close>

lemma onmessage_absent_content:
  "onmessage \<lparr>serverContent = None\<rparr> a = a"
  "onmessage \<lparr>serverContent = Some \<lparr>inputTranscription = None, turnComplete = None\<rparr>\<rparr> a = a"
  by (simp_all add: onmessage_def)

theorem onmessage_absent_text_appends_undefined:
  "onmessage
     \<lparr>serverContent = Some \<lparr>inputTranscription = Some \<lparr>tr_text = None\<rparr>, turnComplete = None\<rparr>\<rparr>
     (initial_app\<lparr>currentTranscript := js ''Hi''\<rparr>)
   = initial_app\<lparr>currentTranscript := js ''Hiundefined''\<rparr>"
  by (simp add: onmessage_def appendDelta_def js_plus_def toString_def js_def initial_app_def)

section \<open>Properties of the audio capture manager\<close>

lemma newEffects_perform [simp]: "newEffects a (perform es a) = es"
  by (simp add: newEffects_def perform_def)

lemma startedApp_eq:
  "startedApp = \<lparr>isCapturing = True, transcripts = [], currentTranscript = [], error = None,
      sessionPromiseRef = Some (Pending (Fulfils \<lparr>session_id = 1, close_throws = False\<rparr>)),
      audioContextRef = Some \<lparr>ctx_state = Running, ctx_close_rejects = False\<rparr>,
      streamRef = Some \<lparr>tracks = [0]\<rparr>,
      scriptProcessorRef = Some (),
      effects = [GetUserMedia, NewGoogleGenAI, NewAudioContext, LiveConnect,
                 CreateMediaStreamSource, CreateScriptProcessor, SourceConnect, ProcessorConnect]\<rparr>"
  by (simp add: startedApp_def grantedEnv_def startCapture_def onopen_def perform_def initial_app_def)

lemma stopTracks_fields:
  "effects (stopTracks a) = effects a @ trackEffects a"
  "streamRef (stopTracks a) = None"
  "scriptProcessorRef (stopTracks a) = scriptProcessorRef a"
  "audioContextRef (stopTracks a) = audioContextRef a"
  "sessionPromiseRef (stopTracks a) = sessionPromiseRef a"
  "isCapturing (stopTracks a) = isCapturing a"
  by (simp_all add: stopTracks_def trackEffects_def perform_def split: option.splits)

lemma disconnectProcessor_fields:
  "effects (disconnectProcessor a) = effects a @ processorEffects a"
  "streamRef (disconnectProcessor a) = streamRef a"
  "scriptProcessorRef (disconnectProcessor a) = None"
  "audioContextRef (disconnectProcessor a) = audioContextRef a"
  "sessionPromiseRef (disconnectProcessor a) = sessionPromiseRef a"
  "isCapturing (disconnectProcessor a) = isCapturing a"
  by (simp_all add: disconnectProcessor_def processorEffects_def perform_def split: option.splits)

lemma closeContext_fields:
  "effects (snd (closeContext a)) = effects a @ contextEffects a"
  "streamRef (snd (closeContext a)) = streamRef a"
  "scriptProcessorRef (snd (closeContext a)) = scriptProcessorRef a"
  "sessionPromiseRef (snd (closeContext a)) = sessionPromiseRef a"
  "isCapturing (snd (closeContext a)) = isCapturing a"
  by (simp_all add: closeContext_def contextEffects_def perform_def split: option.splits)

lemma closeSession_fulfilled:
  assumes "sessionPromiseRef a = Some p" and "await p = Value s"
  shows "closeSession a =
           (Completed,
            (perform ([AwaitSession, SessionClose (session_id s)]
                      @ (if close_throws s then [ConsoleError] else [])) a)
              \<lparr>sessionPromiseRef := None\<rparr>)"
  using assms by (simp add: closeSession_def)

lemma stopCapture_fulfilled:
  assumes "sessionPromiseRef a = Some p" and "await p = Value s"
  shows "stopCapture a =
           closeContext (disconnectProcessor (stopTracks
             ((perform ([AwaitSession, SessionClose (session_id s)]
                      @ (if close_throws s then [ConsoleError] else []))
                 (a\<lparr>isCapturing := False\<rparr>))
              \<lparr>sessionPromiseRef := None\<rparr>)))"
proof -
  have h: "closeSession (a\<lparr>isCapturing := False\<rparr>) =
          (Completed,
            (perform ([AwaitSession, SessionClose (session_id s)]
                      @ (if close_throws s then [ConsoleError] else [])) (a\<lparr>isCapturing := False\<rparr>))
              \<lparr>sessionPromiseRef := None\<rparr>)"
    using assms closeSession_fulfilled [of "a\<lparr>isCapturing := False\<rparr>" p s] by simp
  show ?thesis
    by (simp only: stopCapture_def h prod.case completion.case)
qed

lemma stopCapture_no_session:
  assumes "sessionPromiseRef a = None"
  shows "stopCapture a = closeContext (disconnectProcessor (stopTracks (a\<lparr>isCapturing := False\<rparr>)))"
  using assms by (simp add: stopCapture_def closeSession_def)

lemma stopCapture_effects_fulfilled:
  assumes "sessionPromiseRef a = Some p" and "await p = Value s"
  shows "newEffects a (snd (stopCapture a)) =
           [AwaitSession, SessionClose (session_id s)]
           @ (if close_throws s then [ConsoleError] else [])
           @ trackEffects a @ processorEffects a @ contextEffects a"
  by (simp add: stopCapture_fulfilled [OF assms] closeContext_fields disconnectProcessor_fields
        stopTracks_fields newEffects_def perform_def trackEffects_def processorEffects_def
        contextEffects_def)

lemma closeSession_fields:
  "streamRef (snd (closeSession a)) = streamRef a"
  "scriptProcessorRef (snd (closeSession a)) = scriptProcessorRef a"
  "audioContextRef (snd (closeSession a)) = audioContextRef a"
  "isCapturing (snd (closeSession a)) = isCapturing a"
  by (simp_all add: closeSession_def perform_def split: option.splits awaited.splits)

lemma closeSession_Completed:
  "fst (closeSession a) = Completed \<Longrightarrow> sessionPromiseRef (snd (closeSession a)) = None"
  by (simp add: closeSession_def perform_def split: option.splits awaited.splits)

lemma stopCapture_alt:
  "stopCapture a =
     (if fst (closeSession (a\<lparr>isCapturing := False\<rparr>)) = Completed
      then closeContext (disconnectProcessor (stopTracks
             (snd (closeSession (a\<lparr>isCapturing := False\<rparr>)))))
      else closeSession (a\<lparr>isCapturing := False\<rparr>))"
proof (cases "closeSession (a\<lparr>isCapturing := False\<rparr>)")
  case (Pair c a1)
  then show ?thesis
    by (cases c) (simp_all add: stopCapture_def)
qed

lemma fst_closeContext:
  "fst (closeContext a) =
     (case audioContextRef a of
        None \<Rightarrow> Completed
      | Some ctx \<Rightarrow> if ctx_state ctx \<noteq> Closed \<and> ctx_close_rejects ctx then ThrewError
                   else Completed)"
  by (cases "audioContextRef a") (simp_all add: closeContext_def)

lemma closeContext_Completed:
  "fst (closeContext a) = Completed \<Longrightarrow>
     (case audioContextRef (snd (closeContext a)) of
        None \<Rightarrow> True | Some ctx \<Rightarrow> ctx_state ctx = Closed)"
  by (cases "audioContextRef a") (auto simp add: closeContext_def perform_def split: if_splits)

lemma stopCapture_Completed_released:
  assumes "fst (stopCapture a) = Completed"
  shows "released (snd (stopCapture a))"
proof -
  let ?b = "a\<lparr>isCapturing := False\<rparr>"
  let ?t = "disconnectProcessor (stopTracks (snd (closeSession ?b)))"
  from assms have c: "fst (closeSession ?b) = Completed"
    by (simp add: stopCapture_alt split: if_splits)
  then have s: "stopCapture a = closeContext ?t"
    by (simp add: stopCapture_alt)
  with assms have cc: "fst (closeContext ?t) = Completed"
    by simp
  have "sessionPromiseRef (snd (closeContext ?t)) = None"
    by (simp add: closeContext_fields disconnectProcessor_fields stopTracks_fields
          closeSession_Completed [OF c])
  moreover have "streamRef (snd (closeContext ?t)) = None"
    by (simp add: closeContext_fields disconnectProcessor_fields stopTracks_fields)
  moreover have "scriptProcessorRef (snd (closeContext ?t)) = None"
    by (simp add: closeContext_fields disconnectProcessor_fields)
  moreover have "\<not> isCapturing (snd (closeContext ?t))"
    by (simp add: closeContext_fields disconnectProcessor_fields stopTracks_fields
          closeSession_fields)
  moreover note closeContext_Completed [OF cc]
  ultimately show ?thesis
    by (simp add: released_def s)
qed

lemma released_stopCapture:
  assumes "released a"
  shows "stopCapture a = (Completed, a)"
proof -
  from assms have "a\<lparr>isCapturing := False\<rparr> = a"
    by (simp add: released_def)
  moreover from assms have "closeSession a = (Completed, a)"
    by (simp add: released_def closeSession_def)
  moreover from assms have "stopTracks a = a"
    by (simp add: released_def stopTracks_def)
  moreover from assms have "disconnectProcessor a = a"
    by (simp add: released_def disconnectProcessor_def)
  moreover from assms have "closeContext a = (Completed, a)"
    by (cases "audioContextRef a") (simp_all add: released_def closeContext_def)
  ultimately show ?thesis
    by (simp add: stopCapture_def)
qed

lemma no_session_close_tracks: "filter isSessionClose (trackEffects a) = []"
  by (cases "streamRef a") (simp_all add: trackEffects_def filter_map comp_def isSessionClose_def)

lemma no_session_close_processor: "filter isSessionClose (processorEffects a) = []"
  by (cases "scriptProcessorRef a") (simp_all add: processorEffects_def isSessionClose_def)

lemma no_session_close_context: "filter isSessionClose (contextEffects a) = []"
  by (cases "audioContextRef a") (simp_all add: contextEffects_def isSessionClose_def)

text \<open>
  Claim C5.  After a successful start, \<open>stopCapture\<close> does not close the session
  last: it awaits the session promise and closes the session first, and only then stops
  the tracks, disconnects the processor and closes the context.  Below, the run from
  \<open>startedApp\<close>, where closing the context does not come before closing the session.
\<close>

theorem stop_closes_session_before_context:
  "newEffects startedApp (snd (stopCapture startedApp))
     = [AwaitSession, SessionClose 1, TrackStop 0, ProcessorDisconnect, ContextClose]
   \<and> \<not> precedes ContextClose (SessionClose 1)
          (newEffects startedApp (snd (stopCapture startedApp)))
   \<and> precedes (SessionClose 1) (TrackStop 0)
          (newEffects startedApp (snd (stopCapture startedApp)))"
  by (simp add: startedApp_eq stopCapture_def closeSession_def stopTracks_def
       disconnectProcessor_def closeContext_def perform_def newEffects_def)

text \<open>
  Claim C5, amended.  When the session promise, the stream, the processor and the context
  are all present and the promise resolves to a session, \<open>stopCapture\<close> makes these
  calls and no others, in this order: it awaits the promise and closes the session
  (logging the error if closing throws), stops every track of the stream, disconnects the
  processor, and closes the context unless it is closed already.
\<close>

theorem stop_teardown_order:
  assumes "sessionPromiseRef a = Some p" and "await p = Value s"
    and "streamRef a = Some stream" and "scriptProcessorRef a = Some ()"
    and "audioContextRef a = Some ctx"
  shows "newEffects a (snd (stopCapture a)) =
           [AwaitSession, SessionClose (session_id s)]
           @ (if close_throws s then [ConsoleError] else [])
           @ map TrackStop (tracks stream)
           @ [ProcessorDisconnect]
           @ (if ctx_state ctx \<noteq> Closed then [ContextClose] else [])"
  using assms(3-5)
  by (simp add: stopCapture_effects_fulfilled [OF assms(1,2)] trackEffects_def
        processorEffects_def contextEffects_def)


theorem stop_teardown_order_witness:
  "newEffects startedApp (snd (stopCapture startedApp)) =
     [AwaitSession, SessionClose 1, TrackStop 0, ProcessorDisconnect, ContextClose]"
  using stop_teardown_order
          [of startedApp "Pending (Fulfils \<lparr>session_id = 1, close_throws = False\<rparr>)"
              "\<lparr>session_id = 1, close_throws = False\<rparr>" "\<lparr>tracks = [0]\<rparr>"
              "\<lparr>ctx_state = Running, ctx_close_rejects = False\<rparr>"]
  by (simp add: startedApp_eq)

text \<open>
  Claim C6.  When the \<open>GoogleGenAI\<close> constructor throws after the microphone was
  granted, \<open>startCapture\<close> ends not capturing and with the error message set, but the
  stream stays in \<open>streamRef\<close> and none of its tracks is stopped.
\<close>

theorem start_failure_keeps_stream:
  "startCapture keylessEnv initial_app =
     (Completed,
      initial_app\<lparr>error := Some micErrorMessage, streamRef := Some \<lparr>tracks = [0]\<rparr>,
                  effects := [GetUserMedia, NewGoogleGenAI, ConsoleError]\<rparr>)
   \<and> TrackStop 0 \<notin> set (effects (snd (startCapture keylessEnv initial_app)))"
  by (simp add: startCapture_def keylessEnv_def grantedEnv_def catchStartError_def perform_def
        initial_app_def)

text \<open>
  A \<open>stopCapture\<close> that nothing interrupts is the step model run through: begin, then
  resume until it has returned.
\<close>

lemma teardown_eq:
  "(case stopCapture_teardown a of (t2, a2) \<Rightarrow>
      case stopCapture_resume t2 a2 of (t3, a3) \<Rightarrow> (completionOf t3, a3))
   = closeContext (disconnectProcessor (stopTracks a))"
  by (cases "audioContextRef (disconnectProcessor (stopTracks a))")
     (simp_all add: stopCapture_teardown_def Let_def stopCapture_resume_def closeContext_def)

lemma resume_session_value:
  "await p = Value s \<Longrightarrow>
     stopCapture_resume (AwaitingSession p) a =
       stopCapture_teardown
         ((perform (SessionClose (session_id s)
                    # (if close_throws s then [ConsoleError] else [])) a)
            \<lparr>sessionPromiseRef := None\<rparr>)"
  by (simp add: stopCapture_resume_def)

lemma resume_session_throws:
  "await p = Throws \<Longrightarrow>
     stopCapture_resume (AwaitingSession p) a =
       stopCapture_teardown ((perform [ConsoleError] a)\<lparr>sessionPromiseRef := None\<rparr>)"
  by (simp add: stopCapture_resume_def)

lemma resume_session_forever:
  "await p = Forever \<Longrightarrow> stopCapture_resume (AwaitingSession p) a = (AwaitingSession p, a)"
  by (simp add: stopCapture_resume_def)

lemma teardown_eq2:
  "(case stopCapture_teardown a of (t1, a1) \<Rightarrow>
      case stopCapture_resume t1 a1 of (t2, a2) \<Rightarrow>
      case stopCapture_resume t2 a2 of (t3, a3) \<Rightarrow> (completionOf t3, a3))
   = closeContext (disconnectProcessor (stopTracks a))"
  by (cases "audioContextRef (disconnectProcessor (stopTracks a))")
     (simp_all add: stopCapture_teardown_def Let_def stopCapture_resume_def closeContext_def)

lemma perform_perform: "perform es (perform ds a) = perform (ds @ es) a"
  by (simp add: perform_def)

lemma stopCapture_alone: "stopCapture a = stopCapture_alone a"
proof (cases "sessionPromiseRef a")
  case None
  then show ?thesis
    by (simp add: stopCapture_alone_def stopCapture_begin_def Let_def teardown_eq2
          stopCapture_no_session)
next
  case (Some p)
  then have b: "stopCapture_begin a
                  = (AwaitingSession p, perform [AwaitSession] (a\<lparr>isCapturing := False\<rparr>))"
    by (simp add: stopCapture_begin_def Let_def)
  show ?thesis
  proof (cases "await p")
    case (Value s)
    show ?thesis
      by (simp add: stopCapture_alone_def b resume_session_value [OF Value] teardown_eq
            perform_perform stopCapture_fulfilled [OF Some Value])
  next
    case Throws
    have "closeSession (a\<lparr>isCapturing := False\<rparr>)
            = (Completed, (perform [AwaitSession, ConsoleError] (a\<lparr>isCapturing := False\<rparr>))
                             \<lparr>sessionPromiseRef := None\<rparr>)"
      using Some Throws by (simp add: closeSession_def)
    then have "stopCapture a = closeContext (disconnectProcessor (stopTracks
                 ((perform [AwaitSession, ConsoleError] (a\<lparr>isCapturing := False\<rparr>))
                             \<lparr>sessionPromiseRef := None\<rparr>)))"
      by (simp only: stopCapture_def prod.case completion.case)
    then show ?thesis
      by (simp add: stopCapture_alone_def b resume_session_throws [OF Throws] teardown_eq
            perform_perform)
  next
    case Forever
    have "closeSession (a\<lparr>isCapturing := False\<rparr>)
            = (NeverReturns, perform [AwaitSession] (a\<lparr>isCapturing := False\<rparr>))"
      using Some Forever by (simp add: closeSession_def)
    then have "stopCapture a = (NeverReturns, perform [AwaitSession] (a\<lparr>isCapturing := False\<rparr>))"
      by (simp only: stopCapture_def prod.case completion.case)
    then show ?thesis
      by (simp add: stopCapture_alone_def b resume_session_forever [OF Forever])
  qed
qed

text \<open>
  Run alone, with a pending promise that resolves to a session, \<open>stopCapture\<close> awaits
  the promise, then closes that session once and clears the ref; an exception of \<open>close\<close>
  does not change how it completes.
\<close>

lemma stop_alone_closes_pending_session_once:
  assumes "sessionPromiseRef a = Some (Pending (Fulfils s))"
  shows "take 2 (newEffects a (snd (stopCapture a))) = [AwaitSession, SessionClose (session_id s)]
         \<and> length (filter isSessionClose (newEffects a (snd (stopCapture a)))) = 1
         \<and> sessionPromiseRef (snd (stopCapture a)) = None
         \<and> fst (stopCapture a) = fst (stopCapture (a\<lparr>sessionPromiseRef := None\<rparr>))"
proof -
  have aw: "await (Pending (Fulfils s)) = Value s"
    by simp
  note e = stopCapture_effects_fulfilled [OF assms aw]
  have 1: "take 2 (newEffects a (snd (stopCapture a))) = [AwaitSession, SessionClose (session_id s)]"
    by (simp add: e)
  have 2: "length (filter isSessionClose (newEffects a (snd (stopCapture a)))) = 1"
    by (simp add: e no_session_close_tracks no_session_close_processor no_session_close_context
          isSessionClose_def)
  have 3: "sessionPromiseRef (snd (stopCapture a)) = None"
    by (simp add: stopCapture_fulfilled [OF assms aw] closeContext_fields
          disconnectProcessor_fields stopTracks_fields)
  have 4: "fst (stopCapture a) = fst (stopCapture (a\<lparr>sessionPromiseRef := None\<rparr>))"
    by (simp add: stopCapture_fulfilled [OF assms aw] stopCapture_no_session fst_closeContext
          disconnectProcessor_fields stopTracks_fields perform_def)
  from 1 2 3 4 show ?thesis by simp
qed

lemma started_pending_eq:
  "snd (startCapture grantedEnv initial_app) =
     \<lparr>isCapturing = True, transcripts = [], currentTranscript = [], error = None,
      sessionPromiseRef = Some (Pending (Fulfils \<lparr>session_id = 1, close_throws = False\<rparr>)),
      audioContextRef = Some \<lparr>ctx_state = Running, ctx_close_rejects = False\<rparr>,
      streamRef = Some \<lparr>tracks = [0]\<rparr>,
      scriptProcessorRef = None,
      effects = [GetUserMedia, NewGoogleGenAI, NewAudioContext, LiveConnect]\<rparr>"
  by (simp add: grantedEnv_def startCapture_def perform_def initial_app_def)

lemma twoStopsOverlapped_startedApp:
  "newEffects startedApp (twoStopsOverlapped startedApp) =
     [AwaitSession, AwaitSession, SessionClose 1, TrackStop 0, ProcessorDisconnect, ContextClose,
      SessionClose 1, ContextClose]"
  by (simp add: twoStopsOverlapped_def startedApp_eq stopCapture_begin_def
        stopCapture_resume_def stopCapture_teardown_def stopTracks_def disconnectProcessor_def
        perform_def newEffects_def Let_def)

lemma restartDuringStop_eq:
  "restartDuringStop =
     \<lparr>isCapturing = True, transcripts = [], currentTranscript = [], error = None,
      sessionPromiseRef = None, audioContextRef = None, streamRef = None,
      scriptProcessorRef = None,
      effects = [GetUserMedia, NewGoogleGenAI, NewAudioContext, LiveConnect, AwaitSession,
                 GetUserMedia, NewGoogleGenAI, NewAudioContext, LiveConnect,
                 CreateMediaStreamSource, CreateScriptProcessor, SourceConnect, ProcessorConnect,
                 SessionClose 1, TrackStop 1, ProcessorDisconnect, ContextClose]\<rparr>"
  unfolding restartDuringStop_def started_pending_eq
  by (simp add: secondEnv_def startCapture_def
        onopen_def stopCapture_begin_def stopCapture_resume_def stopCapture_teardown_def
        stopTracks_def disconnectProcessor_def perform_def Let_def)

text \<open>
  Claim C7.  \<open>stopCapture\<close> tests the session ref before it awaits the promise and clears
  the ref only after, so its once-only guard fails when calls overlap at that await.
  A second \<open>stopCapture\<close> called while the first is suspended on the pending promise makes
  the session be closed twice.  And when a second start happens while a \<open>stopCapture\<close>
  is suspended, the resumed stop clears the ref that by then holds the second session's
  promise: the component still shows capturing, a later \<open>stopCapture\<close> finds no session
  and makes no call, and the second session is never closed.
\<close>

theorem overlapping_stops_close_twice_or_never:
  "filter isSessionClose (newEffects startedApp (twoStopsOverlapped startedApp))
     = [SessionClose 1, SessionClose 1]
   \<and> sessionPromiseRef (snd (startCapture secondEnv initial_app))
       = Some (Pending (Fulfils \<lparr>session_id = 2, close_throws = False\<rparr>))
   \<and> sessionPromiseRef restartDuringStop = None
   \<and> isCapturing restartDuringStop
   \<and> stopCapture restartDuringStop = (Completed, restartDuringStop\<lparr>isCapturing := False\<rparr>)
   \<and> filter isSessionClose (effects restartDuringStop) = [SessionClose 1]"
proof (intro conjI)
  show "filter isSessionClose (newEffects startedApp (twoStopsOverlapped startedApp))
     = [SessionClose 1, SessionClose 1]"
    by (simp add: twoStopsOverlapped_startedApp isSessionClose_def)
  show "sessionPromiseRef (snd (startCapture secondEnv initial_app))
       = Some (Pending (Fulfils \<lparr>session_id = 2, close_throws = False\<rparr>))"
    by (simp add: secondEnv_def startCapture_def perform_def)
  show "sessionPromiseRef restartDuringStop = None"
    by (simp add: restartDuringStop_eq)
  show "isCapturing restartDuringStop"
    by (simp add: restartDuringStop_eq)
  show "stopCapture restartDuringStop = (Completed, restartDuringStop\<lparr>isCapturing := False\<rparr>)"
    by (simp add: restartDuringStop_eq stopCapture_def closeSession_def stopTracks_def
          disconnectProcessor_def closeContext_def)
  show "filter isSessionClose (effects restartDuringStop) = [SessionClose 1]"
    by (simp add: restartDuringStop_eq isSessionClose_def)
qed

text \<open>
  Claim C9.  With no session promise, stream, processor or context held, \<open>stopCapture\<close>
  completes without error, makes no external call and changes nothing but the capturing
  flag, which it sets to false.  After a \<open>stopCapture\<close> that completed, a second
  \<open>stopCapture\<close> completes and changes nothing at all.
\<close>

theorem stop_never_started_and_repeated:
  "(sessionPromiseRef a = None \<and> streamRef a = None \<and> scriptProcessorRef a = None
      \<and> audioContextRef a = None
     \<longrightarrow> stopCapture a = (Completed, a\<lparr>isCapturing := False\<rparr>)
         \<and> newEffects a (snd (stopCapture a)) = [])
   \<and> (fst (stopCapture a) = Completed
     \<longrightarrow> stopCapture (snd (stopCapture a)) = (Completed, snd (stopCapture a)))"
proof (intro conjI impI)
  assume h: "sessionPromiseRef a = None \<and> streamRef a = None \<and> scriptProcessorRef a = None
      \<and> audioContextRef a = None"
  then have "released (a\<lparr>isCapturing := False\<rparr>)"
    by (simp add: released_def)
  then have "stopCapture (a\<lparr>isCapturing := False\<rparr>) = (Completed, a\<lparr>isCapturing := False\<rparr>)"
    by (rule released_stopCapture)
  moreover have "stopCapture (a\<lparr>isCapturing := False\<rparr>) = stopCapture a"
    by (simp add: stopCapture_def)
  ultimately show "stopCapture a = (Completed, a\<lparr>isCapturing := False\<rparr>)"
    by simp
  then show "newEffects a (snd (stopCapture a)) = []"
    by (simp add: newEffects_def)
next
  assume "fst (stopCapture a) = Completed"
  then have "released (snd (stopCapture a))"
    by (rule stopCapture_Completed_released)
  then show "stopCapture (snd (stopCapture a)) = (Completed, snd (stopCapture a))"
    by (rule released_stopCapture)
qed


theorem stop_never_started_and_repeated_witness:
  "stopCapture initial_app = (Completed, initial_app)
   \<and> newEffects initial_app (snd (stopCapture initial_app)) = []
   \<and> fst (stopCapture startedApp) = Completed
   \<and> stopCapture (snd (stopCapture startedApp)) = (Completed, snd (stopCapture startedApp))"
proof -
  have "fst (stopCapture startedApp) = Completed"
    by (simp add: startedApp_eq stopCapture_def closeSession_def stopTracks_def
          disconnectProcessor_def closeContext_def perform_def)
  moreover have "initial_app\<lparr>isCapturing := False\<rparr> = initial_app"
    by (simp add: initial_app_def)
  moreover have "sessionPromiseRef initial_app = None \<and> streamRef initial_app = None
      \<and> scriptProcessorRef initial_app = None \<and> audioContextRef initial_app = None"
    by (simp add: initial_app_def)
  ultimately show ?thesis
    using stop_never_started_and_repeated [of initial_app]
      stop_never_started_and_repeated [of startedApp]
    by (simp add: newEffects_def)
qed

text \<open>
  Claim C10.  Whatever the environment does and however \<open>startCapture\<close> ends, the
  finalized lines and the current line are empty afterwards and the earlier error value is
  gone: the error is the microphone message when the \<open>catch\<close> block ran and absent
  otherwise.  The result does not depend on the transcript state or error from before the
  call.
\<close>

theorem start_resets_transcript_state:
  "transcripts (snd (startCapture env a)) = []
   \<and> currentTranscript (snd (startCapture env a)) = []
   \<and> error (snd (startCapture env a))
       = (if ConsoleError \<in> set (newEffects a (snd (startCapture env a)))
          then Some micErrorMessage else None)
   \<and> startCapture env a
       = startCapture env (a\<lparr>transcripts := [], currentTranscript := [], error := None\<rparr>)"
  by (simp add: startCapture_def catchStartError_def perform_def newEffects_def Let_def
       split: option.splits awaited.splits)

section \<open>Properties of the PCM encoder\<close>

text \<open>The two loops compute maps: every sample is scaled, every byte becomes a code unit.\<close>

lemma fillInt16_inv:
  "i \<le> length samples \<Longrightarrow> length int16 = length samples \<Longrightarrow>
     fillInt16 samples i int16 = take i int16 @ map scaleSample (drop i samples)"
proof (induction samples i int16 rule: fillInt16.induct)
  case (1 samples i int16)
  show ?case
  proof (cases "i < length samples")
    case True
    let ?v = "scaleSample (samples ! i)"
    have "fillInt16 samples i int16 = fillInt16 samples (Suc i) (int16[i := ?v])"
      using True by (simp add: fillInt16.simps [of samples i int16])
    also have "\<dots> = take (Suc i) (int16[i := ?v]) @ map scaleSample (drop (Suc i) samples)"
      using True "1.prems" by (intro "1.IH") simp_all
    also have "take (Suc i) (int16[i := ?v]) = take i int16 @ [?v]"
      using True "1.prems" by (simp add: take_Suc_conv_app_nth)
    also have "(take i int16 @ [?v]) @ map scaleSample (drop (Suc i) samples)
                 = take i int16 @ map scaleSample (drop i samples)"
      using True by (simp add: Cons_nth_drop_Suc [symmetric])
    finally show ?thesis .
  next
    case False
    with "1.prems" have "i = length samples" by simp
    moreover have "fillInt16 samples i int16 = int16"
      using False by (subst fillInt16.simps) simp
    ultimately show ?thesis
      using "1.prems" by simp
  qed
qed

lemma fillInt16_map:
  "fillInt16 samples 0 (replicate (length samples) 0) = map scaleSample samples"
  by (simp add: fillInt16_inv)

lemma encodeLoop_inv:
  "encodeLoop bytes i binary = binary @ map fromCharCode (drop i bytes)"
proof (induction bytes i binary rule: encodeLoop.induct)
  case (1 bytes i binary)
  show ?case
  proof (cases "i < length bytes")
    case True
    then have "encodeLoop bytes i binary
                 = encodeLoop bytes (Suc i) (binary @ [fromCharCode (bytes ! i)])"
      by (simp add: encodeLoop.simps [of bytes i binary])
    also have "\<dots> = (binary @ [fromCharCode (bytes ! i)]) @ map fromCharCode (drop (Suc i) bytes)"
      using True by (rule "1.IH")
    also have "\<dots> = binary @ map fromCharCode (drop i bytes)"
      using True by (simp add: Cons_nth_drop_Suc [symmetric])
    finally show ?thesis .
  next
    case False
    then show ?thesis
      by (simp add: encodeLoop.simps [of bytes i binary])
  qed
qed

lemma fromCharCode_le: "fromCharCode b \<le> 0xFF"
proof -
  have "uint (ucast b :: 16 word) = uint b"
    by (simp add: uint_up_ucast is_up)
  moreover have "uint b < 256"
    using uint_bounded [of b] by simp
  ultimately show ?thesis
    by (simp add: fromCharCode_def word_le_def)
qed

lemma ucast_fromCharCode: "ucast (fromCharCode b) = b"
  by (simp add: fromCharCode_def ucast_up_ucast_id is_up)

lemma encode_base64: "encode bytes = Inr (base64 bytes)"
proof -
  have "list_all (\<lambda>c. c \<le> 0xFF) (map fromCharCode bytes)"
    by (simp add: list_all_iff fromCharCode_le)
  moreover have "map ucast (map fromCharCode bytes) = bytes"
    by (simp add: comp_def ucast_fromCharCode)
  ultimately show ?thesis
    by (simp add: encode_def encodeLoop_inv btoa_def)
qed

lemma int16Bytes_little:
  "int16Bytes LittleEndian w = [word_of_int (uint w mod 256), word_of_int (uint w div 256)]"
proof -
  have "(ucast w :: 8 word) = word_of_int (uint w mod 256)"
    by (simp add: word_eq_iff_unsigned [where ?'a = int] unsigned_ucast_eq uint_word_of_int take_bit_eq_mod)
  moreover have "(ucast (drop_bit 8 w) :: 8 word) = word_of_int (uint w div 256)"
    by (simp add: word_eq_iff_unsigned [where ?'a = int] unsigned_ucast_eq uint_word_of_int
          take_bit_eq_mod unsigned_drop_bit_eq drop_bit_eq_div uint_div)
  ultimately show ?thesis by simp
qed

lemma sint_toInt16:
  "sint (word_of_int k :: 16 word) = (k + 32768) mod 65536 - 32768"
  by (simp add: sint_sbintrunc' signed_take_bit_eq_take_bit_shift take_bit_eq_mod)

lemma scaleSample_Finite:
  "scaleSample (Finite r) = word_of_int (truncateToInt (if r < 0 then r * 32768 else r * 32767))"
  by (simp add: scaleSample_def)

lemma truncateToInt_error: "\<bar>real_of_int (truncateToInt y) - y\<bar> < 1"
  unfolding truncateToInt_def by (cases "y < 0") (simp_all, linarith+)

lemma scaleSample_in_range:
  assumes "-1 \<le> r" and "r \<le> 1"
  shows "sint (scaleSample (Finite r)) = truncateToInt (if r < 0 then r * 32768 else r * 32767)"
proof -
  let ?t = "truncateToInt (if r < 0 then r * 32768 else r * 32767)"
  have "- 32768 \<le> ?t \<and> ?t \<le> 32767"
  proof (cases "r < 0")
    case True
    with assms have "- 32768 \<le> r * 32768" and "r * 32768 < 0" by simp_all
    then have "- 32768 \<le> \<lceil>r * 32768\<rceil>" and "\<lceil>r * 32768\<rceil> \<le> 0"
      by (simp_all add: le_ceiling_iff ceiling_le_iff)
    with True show ?thesis by (simp add: truncateToInt_def)
  next
    case False
    with assms have "0 \<le> r * 32767" and "r * 32767 \<le> 32767" by simp_all
    then have "0 \<le> \<lfloor>r * 32767\<rfloor>" and "\<lfloor>r * 32767\<rfloor> \<le> 32767"
      by (simp_all add: le_floor_iff floor_le_iff)
    with False show ?thesis by (simp add: truncateToInt_def)
  qed
  then have "(?t + 32768) mod 65536 - 32768 = ?t"
    by simp
  then show ?thesis
    by (simp only: scaleSample_Finite sint_toInt16)
qed

text \<open>
  Claim C2.  On a little-endian platform \<open>createBlob\<close> never fails and returns the
  base64 text of the bytes of the scaled samples, low byte first, with the MIME type
  \<open>audio/pcm;rate=16000\<close>.  A finite sample is multiplied by 32768 when negative and by
  32767 otherwise, truncated towards zero and reduced to the signed 16-bit range; a
  non-finite sample becomes 0.  The result is a function of the samples alone.
\<close>

theorem createBlob_base64_of_scaled_samples:
  "createBlob LittleEndian samples =
     Inr \<lparr>blob_data =
            base64 (concat (map (\<lambda>x. [word_of_int (uint (scaleSample x) mod 256),
                                        word_of_int (uint (scaleSample x) div 256)]) samples)),
          mimeType = js ''audio/pcm;rate=16000''\<rparr>
   \<and> sint (scaleSample (Finite r))
       = (truncateToInt (if r < 0 then r * 32768 else r * 32767) + 32768) mod 65536 - 32768
   \<and> scaleSample NaN = 0 \<and> scaleSample PosInfinity = 0 \<and> scaleSample NegInfinity = 0"
proof (intro conjI)
  have "bufferBytes LittleEndian (map scaleSample samples)
          = concat (map (\<lambda>x. [word_of_int (uint (scaleSample x) mod 256),
                               word_of_int (uint (scaleSample x) div 256)]) samples)"
    by (simp only: bufferBytes_def map_map comp_def int16Bytes_little)
  then show "createBlob LittleEndian samples =
     Inr \<lparr>blob_data =
            base64 (concat (map (\<lambda>x. [word_of_int (uint (scaleSample x) mod 256),
                                        word_of_int (uint (scaleSample x) div 256)]) samples)),
          mimeType = js ''audio/pcm;rate=16000''\<rparr>"
    by (simp add: createBlob_def fillInt16_map encode_base64)
  show "sint (scaleSample (Finite r))
       = (truncateToInt (if r < 0 then r * 32768 else r * 32767) + 32768) mod 65536 - 32768"
    by (simp only: scaleSample_Finite sint_toInt16)
qed (simp_all add: scaleSample_def)

text \<open>
  Claim C8.  For a sample \<open>r\<close> with \<open>-1 \<le> r < 1\<close>, dividing the 16-bit value the
  encoder stores by the scale that was applied (32768 for negative \<open>r\<close>, 32767 otherwise)
  gives \<open>r\<close> back within one quantization step, the reciprocal of that scale.  The sample
  \<open>1\<close> is stored as 32767, the largest positive 16-bit value, whose bytes are FF 7F.
\<close>

theorem quantization_round_trip:
  "(i < length samples \<and> samples ! i = Finite r \<and> -1 \<le> r \<and> r < 1 \<longrightarrow>
      \<bar>real_of_int (sint (fillInt16 samples 0 (replicate (length samples) 0) ! i))
           / (if r < 0 then 32768 else 32767) - r\<bar>
        < 1 / (if r < 0 then 32768 else 32767))
   \<and> sint (fillInt16 [Finite 1] 0 (replicate (length [Finite 1]) 0) ! 0) = 32767
   \<and> createBlob LittleEndian [Finite 1]
       = Inr \<lparr>blob_data = base64 [0xFF, 0x7F], mimeType = js ''audio/pcm;rate=16000''\<rparr>"
proof (intro conjI impI)
  assume h: "i < length samples \<and> samples ! i = Finite r \<and> -1 \<le> r \<and> r < 1"
  let ?s = "if r < 0 then 32768 else 32767 :: real"
  let ?t = "truncateToInt (if r < 0 then r * 32768 else r * 32767)"
  have pos: "0 < ?s" by simp
  from h have "fillInt16 samples 0 (replicate (length samples) 0) ! i = scaleSample (Finite r)"
    by (simp add: fillInt16_map)
  moreover from h have "sint (scaleSample (Finite r)) = ?t"
    by (intro scaleSample_in_range) simp_all
  ultimately have v: "sint (fillInt16 samples 0 (replicate (length samples) 0) ! i) = ?t"
    by simp
  have "(if r < 0 then r * 32768 else r * 32767) = r * ?s"
    by simp
  then have "\<bar>real_of_int ?t - r * ?s\<bar> < 1"
    using truncateToInt_error [of "if r < 0 then r * 32768 else r * 32767"] by simp
  then have "\<bar>real_of_int ?t - r * ?s\<bar> / ?s < 1 / ?s"
    using pos by (simp add: divide_strict_right_mono)
  moreover have "\<bar>real_of_int ?t - r * ?s\<bar> / ?s = \<bar>real_of_int ?t / ?s - r\<bar>"
  proof -
    have "real_of_int ?t / ?s - r = (real_of_int ?t - r * ?s) / ?s"
      using pos by (simp add: field_simps)
    then show ?thesis
      using pos by (simp only: abs_divide abs_of_pos)
  qed
  ultimately show "\<bar>real_of_int (sint (fillInt16 samples 0 (replicate (length samples) 0) ! i))
           / ?s - r\<bar> < 1 / ?s"
    by (simp only: v)
next
  show "sint (fillInt16 [Finite 1] 0 (replicate (length [Finite 1]) 0) ! 0) = 32767"
    using fillInt16_map [of "[Finite 1]"] by (simp add: scaleSample_def truncateToInt_def)
next
  have "bufferBytes LittleEndian (map scaleSample [Finite 1]) = [0xFF, 0x7F]"
    by (simp add: bufferBytes_def scaleSample_def truncateToInt_def)
  then show "createBlob LittleEndian [Finite 1]
       = Inr \<lparr>blob_data = base64 [0xFF, 0x7F], mimeType = js ''audio/pcm;rate=16000''\<rparr>"
    using fillInt16_map [of "[Finite 1]"] by (simp add: createBlob_def encode_base64)
qed

theorem quantization_round_trip_witness:
  "\<bar>real_of_int (sint (fillInt16 [Finite (1/2)] 0 (replicate (length [Finite (1/2)]) 0) ! 0))
       / 32767 - 1/2\<bar> < 1 / 32767"
  using quantization_round_trip [of 0 "[Finite (1/2)]" "1/2"] by simp

end
